theory Spec2Isabelle
  imports Main
begin

section \<open>The VM execution engine of the client (VMExecution)\<close>

text \<open>
  The development embeds the class \<^verbatim>\<open>VMExecution\<close> (runWithLock, runWithoutSetHead,
  setHead, run) as state-passing functions over a record of the engine's world. An
  \<^verbatim>\<open>async\<close> method becomes a function from the world to a result and the world it
  leaves behind; a thrown error is the left summand of the result, and the world that
  comes with it holds every write made before the throw.
\<close>

subsection \<open>Blocks, receipts and errors\<close>

type_synonym hash = nat
type_synonym root = nat
type_synonym receipt = nat

text \<open>A block with the header fields the engine reads. Numbers, timestamps and
  difficulties are JavaScript BigInts, so they are unbounded integers.\<close>

record block =
  hash :: hash
  parentHash :: hash
  number :: int
  stateRoot :: root
  timestamp :: int
  difficulty :: int
  transactions :: "nat list"

text \<open>A thrown JavaScript value. \<^verbatim>\<open>Error\<close> carries its message; \<^verbatim>\<open>TypeError\<close> is what a
  property read on \<^verbatim>\<open>undefined\<close> throws. Messages built from template strings are
  shortened to their fixed part.\<close>

datatype error = Error string | TypeError string

datatype logLevel = LWarn | LError

text \<open>The template rendering \<^verbatim>\<open>`${error}`\<close> of a thrown error.\<close>

fun render :: "error \<Rightarrow> string" where
  "render (Error m) = ''Error: '' @ m"
| "render (TypeError m) = ''TypeError: '' @ m"

text \<open>\<^verbatim>\<open>String.prototype.toLowerCase\<close> and \<^verbatim>\<open>String.prototype.includes\<close>. Lower-casing
  maps the letters A to Z; among 8-bit characters no other one becomes a character of
  the text the engine searches for.\<close>

definition lowerChar :: "char \<Rightarrow> char" where
  "lowerChar c =
     (let n = (of_char c :: nat)
      in if 65 \<le> n \<and> n \<le> 90 then char_of (n + 32) else c)"

definition toLowerCase :: "string \<Rightarrow> string" where
  "toLowerCase s = map lowerChar s"

fun startsWith :: "string \<Rightarrow> string \<Rightarrow> bool" where
  "startsWith s [] = True"
| "startsWith [] (p # ps) = False"
| "startsWith (c # cs) (p # ps) = (c = p \<and> startsWith cs ps)"

fun includes_s :: "string \<Rightarrow> string \<Rightarrow> bool" where
  "includes_s [] p = (p = [])"
| "includes_s (c # cs) p = (startsWith (c # cs) p \<or> includes_s cs p)"

subsection \<open>The blockchain store\<close>

text \<open>
  Modelled from the spec: the blockchain store (packages blockchain and client/chain)
  is outside the sources at hand. Its persisted layout is the one the specification
  lists: per block hash the block, per hash the number, per number the canonical hash,
  per hash the total difficulty, and the named iterator cursors. \<open>headHash\<close> is the
  canonical head.
\<close>

record chain =
  blocks :: "hash \<rightharpoonup> block"
  hashToNumber :: "hash \<rightharpoonup> int"
  numberToHash :: "int \<rightharpoonup> hash"
  totalDifficulty :: "hash \<rightharpoonup> int"
  heads :: "string \<Rightarrow> hash"
  headHash :: hash

datatype blockId = ByNumber int | ByHash hash

text \<open>Modelled from the spec: \<^verbatim>\<open>getBlock(numberOrHash)\<close>. A lookup by number goes through
  the canonical number-to-hash mapping; a missing entry throws.\<close>

definition getBlockByHash :: "chain \<Rightarrow> hash \<Rightarrow> error + block" where
  "getBlockByHash c h =
     (case blocks c h of None \<Rightarrow> Inl (Error ''not found in DB'') | Some b \<Rightarrow> Inr b)"

fun getBlock :: "chain \<Rightarrow> blockId \<Rightarrow> error + block" where
  "getBlock c (ByHash h) = getBlockByHash c h"
| "getBlock c (ByNumber n) =
     (case numberToHash c n of
        None \<Rightarrow> Inl (Error ''not found in DB'')
      | Some h \<Rightarrow> getBlockByHash c h)"

text \<open>Modelled from the spec: \<^verbatim>\<open>getTotalDifficulty(hash)\<close>; a missing record throws.\<close>

definition getTotalDifficulty :: "chain \<Rightarrow> hash \<Rightarrow> error + int" where
  "getTotalDifficulty c h =
     (case totalDifficulty c h of None \<Rightarrow> Inl (Error ''not found in DB'') | Some td \<Rightarrow> Inr td)"

text \<open>Modelled from the spec: \<^verbatim>\<open>chain.getTd(hash, number)\<close> reads the same record; the
  number is part of the database key only.\<close>

definition getTd :: "chain \<Rightarrow> hash \<Rightarrow> int \<Rightarrow> error + int" where
  "getTd c h num = getTotalDifficulty c h"

text \<open>Modelled from the spec: \<^verbatim>\<open>iteratorHead(name)\<close>, the block the named cursor is on.\<close>

definition getIteratorHead :: "chain \<Rightarrow> string \<Rightarrow> error + block" where
  "getIteratorHead c name = getBlock c (ByHash (heads c name))"

text \<open>Modelled from the spec: \<^verbatim>\<open>canonicalHead()\<close>, the block at the tip of the canonical
  chain.\<close>

definition getCanonicalHeadBlock :: "chain \<Rightarrow> error + block" where
  "getCanonicalHeadBlock c = getBlock c (ByHash (headHash c))"

text \<open>Modelled from the spec: the composable writes of \<^verbatim>\<open>dbManager.batch\<close>. The helper
  \<^verbatim>\<open>DBSaveLookups(hash, number, skipNumIndex)\<close> leaves the number-to-hash write out when
  its third argument is true.\<close>

datatype dbOp =
    SetTD int int hash
  | SetBlockOrHeader block
  | SetHashToNumber hash int
  | SetNumberToHash int hash

definition DBSetTD :: "int \<Rightarrow> int \<Rightarrow> hash \<Rightarrow> dbOp" where
  "DBSetTD td num h = SetTD td num h"

definition DBSetBlockOrHeader :: "block \<Rightarrow> dbOp list" where
  "DBSetBlockOrHeader b = [SetBlockOrHeader b]"

definition DBSetHashToNumber :: "hash \<Rightarrow> int \<Rightarrow> dbOp" where
  "DBSetHashToNumber h num = SetHashToNumber h num"

definition DBSaveLookups :: "hash \<Rightarrow> int \<Rightarrow> bool \<Rightarrow> dbOp list" where
  "DBSaveLookups h num skipNumIndex =
     (if skipNumIndex then [] else [SetNumberToHash num h]) @ [SetHashToNumber h num]"

fun applyOp :: "chain \<Rightarrow> dbOp \<Rightarrow> chain" where
  "applyOp c (SetTD td num h) = c\<lparr>totalDifficulty := (totalDifficulty c)(h \<mapsto> td)\<rparr>"
| "applyOp c (SetBlockOrHeader b) = c\<lparr>blocks := (blocks c)(hash b \<mapsto> b)\<rparr>"
| "applyOp c (SetHashToNumber h num) = c\<lparr>hashToNumber := (hashToNumber c)(h \<mapsto> num)\<rparr>"
| "applyOp c (SetNumberToHash num h) = c\<lparr>numberToHash := (numberToHash c)(num \<mapsto> h)\<rparr>"

definition batch :: "dbOp list \<Rightarrow> chain \<Rightarrow> chain" where
  "batch ops c = foldl applyOp c ops"

subsection \<open>The virtual machine and the protocol parameters\<close>

text \<open>Modelled from the spec: the state manager (package statemanager) as the engine
  sees it, which state roots the trie holds (\<^verbatim>\<open>hasStateRoot\<close>) and the root the VM stands
  on (\<^verbatim>\<open>getStateRoot\<close>).\<close>

record vmState =
  roots :: "root set"
  currentRoot :: root

definition hasStateRoot :: "vmState \<Rightarrow> root \<Rightarrow> bool" where
  "hasStateRoot v r = (r \<in> roots v)"

definition getStateRoot :: "vmState \<Rightarrow> root" where
  "getStateRoot v = currentRoot v"

text \<open>\<^verbatim>\<open>RunBlockOpts\<close> and the result of \<^verbatim>\<open>runBlock\<close> (types of package vm), with the fields
  the engine passes and reads: an absent optional field is \<open>None\<close>.\<close>

record runBlockOpts =
  block :: block
  root :: "root option"
  clearCache :: "bool option"
  skipBlockValidation :: "bool option"
  skipHeaderValidation :: "bool option"

record runBlockResult =
  receipts :: "receipt list"
  gasUsed :: int

datatype consensusType = ProofOfWork | ProofOfAuthority | ProofOfStake

text \<open>
  The collaborators whose code is not part of the engine are parameters of the model:
  \<^item> \<open>putBlocks\<close> is \<^verbatim>\<open>chain.putBlocks(blocks, true, true)\<close>; it returns the error it throws,
    if any, and the store as it leaves it;
  \<^item> \<open>nextBlock\<close> is the choice the store's iterator makes at each step: from the cursor
    name, the block it delivered last in this pass and the store, the block to deliver
    next with its reorg flag, or \<open>None\<close> when the chain has no further block;
  \<^item> \<open>runBlock\<close> is \<^verbatim>\<open>vm.runBlock\<close>, given the options, the hardfork the protocol
    parameters are set to, and the state;
  \<^item> \<open>getHardforkBy\<close> is the hardfork table, from block number, total difficulty and
    timestamp; \<open>consensusType\<close> and \<open>numBlocksPerIteration\<close> are configuration.
\<close>

record env =
  putBlocks :: "block list \<Rightarrow> chain \<Rightarrow> error option \<times> chain"
  nextBlock :: "string \<Rightarrow> block option \<Rightarrow> chain \<Rightarrow> (block \<times> bool) option"
  runBlock :: "runBlockOpts \<Rightarrow> string \<Rightarrow> vmState \<Rightarrow> (error + runBlockResult) \<times> vmState"
  getHardforkBy :: "int \<Rightarrow> int \<Rightarrow> int \<Rightarrow> string"
  consensusType :: consensusType
  numBlocksPerIteration :: nat

subsection \<open>The engine's world\<close>

text \<open>What an observer sees the engine do, in order: lock traffic, receipts handed to
  the receipts manager, the hardfork switch message, \<^verbatim>\<open>setIteratorHead\<close> calls, the
  chain-updated signal, the \<^verbatim>\<open>SYNC_EXECUTION_VM_ERROR\<close> event, calls of \<^verbatim>\<open>vm.runBlock\<close>
  and the warn and error lines of the logger. Debug and info lines, the slow-block
  warning (it depends on the wall clock) and the debug replay behind
  \<^verbatim>\<open>config.debugCode\<close> (taken to be off) are left out.\<close>

datatype event =
    LockAcquired
  | LockReleased
  | SavedReceipts block "receipt list"
  | HardforkSwitch int hash string string
  | IteratorHeadSet string hash
  | ChainUpdated
  | VMErrorEmitted error
  | RunBlockCalled runBlockOpts string
  | Logged logLevel string

record world =
  started :: bool
  shutdown :: bool
  running :: bool
  hardfork :: string
  commonHardfork :: string
  receiptsManager :: bool
  pendingReceipts :: "(hash \<rightharpoonup> receipt list) option"
  chain :: chain
  vm :: vmState
  events :: "event list"

definition emit :: "event \<Rightarrow> world \<Rightarrow> world" where
  "emit e w = w\<lparr>events := events w @ [e]\<rparr>"

text \<open>Modelled from the spec: \<^verbatim>\<open>setIteratorHead(name, hash)\<close> writes the named cursor.\<close>

definition setIteratorHead :: "string \<Rightarrow> hash \<Rightarrow> world \<Rightarrow> world" where
  "setIteratorHead name h w =
     emit (IteratorHeadSet name h) (w\<lparr>chain := (chain w)\<lparr>heads := (heads (chain w))(name := h)\<rparr>\<rparr>)"

text \<open>Modelled from the spec: \<^verbatim>\<open>setHardforkFor\<close> sets the protocol parameters to the tag
  of the table at the given point and returns it.\<close>

definition setHardforkBy :: "env \<Rightarrow> int \<Rightarrow> int \<Rightarrow> int \<Rightarrow> world \<Rightarrow> string \<times> world" where
  "setHardforkBy env num td ts w =
     (let hf = getHardforkBy env num td ts in (hf, w\<lparr>commonHardfork := hf\<rparr>))"

text \<open>\<^verbatim>\<open>void this.receiptsManager?.saveReceipts(block, receipts)\<close>\<close>

definition saveReceipts :: "block \<Rightarrow> receipt list \<Rightarrow> world \<Rightarrow> world" where
  "saveReceipts b rs w = (if receiptsManager w then emit (SavedReceipts b rs) w else w)"

text \<open>\<^verbatim>\<open>this.pendingReceipts?.get\<close>, \<^verbatim>\<open>?.set\<close> and \<^verbatim>\<open>?.delete\<close>; the key
  \<^verbatim>\<open>bytesToHex(block.hash())\<close> is the hash.\<close>

definition pendingGet :: "world \<Rightarrow> hash \<Rightarrow> receipt list option" where
  "pendingGet w h = (case pendingReceipts w of None \<Rightarrow> None | Some m \<Rightarrow> m h)"

definition pendingSet :: "hash \<Rightarrow> receipt list \<Rightarrow> world \<Rightarrow> world" where
  "pendingSet h rs w =
     w\<lparr>pendingReceipts := (case pendingReceipts w of None \<Rightarrow> None | Some m \<Rightarrow> Some (m(h \<mapsto> rs)))\<rparr>"

definition pendingDelete :: "hash \<Rightarrow> world \<Rightarrow> world" where
  "pendingDelete h w =
     w\<lparr>pendingReceipts := (case pendingReceipts w of None \<Rightarrow> None | Some m \<Rightarrow> Some (m(h := None)))\<rparr>"

text \<open>A call of \<^verbatim>\<open>this.vm.runBlock\<close>: the VM runs on the engine's state under the
  hardfork the protocol parameters are set to at that moment.\<close>

definition callRunBlock :: "env \<Rightarrow> runBlockOpts \<Rightarrow> world \<Rightarrow> (error + runBlockResult) \<times> world" where
  "callRunBlock env opts w =
     (let w0 = emit (RunBlockCalled opts (commonHardfork w)) w;
          (r, v) = runBlock env opts (commonHardfork w) (vm w)
      in (r, w0\<lparr>vm := v\<rparr>))"

subsection \<open>runWithLock\<close>

text \<open>\<^verbatim>\<open>try { await this._lock.acquire(); return await action() } finally { this._lock.release() }\<close>
  for one caller on a free lock: the action runs between the two lock events, and the
  release happens whether the action returns or throws. The second form is for an
  action that may not return (\<open>None\<close>).\<close>

definition runWithLock :: "(world \<Rightarrow> (error + 'a) \<times> world) \<Rightarrow> world \<Rightarrow> (error + 'a) \<times> world" where
  "runWithLock action w =
     (let (r, w') = action (emit LockAcquired w) in (r, emit LockReleased w'))"

definition runWithLockP ::
  "(world \<Rightarrow> ((error + 'a) \<times> world) option) \<Rightarrow> world \<Rightarrow> ((error + 'a) \<times> world) option" where
  "runWithLockP action w =
     (case action (emit LockAcquired w) of
        None \<Rightarrow> None
      | Some (r, w') \<Rightarrow> Some (r, emit LockReleased w'))"

subsection \<open>runWithoutSetHead\<close>

text \<open>The body of the \<^verbatim>\<open>try\<close> block. With no receipts supplied the block is run; the
  computed \<open>clearCache\<close> is the default that a \<open>clearCache\<close> given in \<open>opts\<close>
  overrides (\<^verbatim>\<open>{ clearCache, ...opts }\<close>). The receipts are stashed, and unless
  \<open>skipBlockchain\<close> the block goes to the database in one batch that has no
  number-to-hash write.\<close>

definition runWithoutSetHeadTry ::
  "env \<Rightarrow> runBlockOpts \<Rightarrow> receipt list option \<Rightarrow> bool \<Rightarrow> world \<Rightarrow> (error + unit) \<times> world" where
  "runWithoutSetHeadTry env opts rcpts skipBlockchain w =
     (let b = block opts;
          (r, w1) =
            (case rcpts of
               Some rs \<Rightarrow> (Inr rs, w)
             | None \<Rightarrow>
                 (let prevVMStateRoot = getStateRoot (vm w);
                      parentState = (case root opts of None \<Rightarrow> prevVMStateRoot | Some r \<Rightarrow> r);
                      cc = (prevVMStateRoot \<noteq> parentState);
                      opts' = opts\<lparr>clearCache :=
                                (case clearCache opts of None \<Rightarrow> Some cc | Some x \<Rightarrow> Some x)\<rparr>
                  in case callRunBlock env opts' w of
                       (Inl e, w') \<Rightarrow> (Inl e, w')
                     | (Inr res, w') \<Rightarrow> (Inr (receipts res), w')))
      in case r of
           Inl e \<Rightarrow> (Inl e, w1)
         | Inr rs \<Rightarrow>
             (let w2 = pendingSet (hash b) rs w1
              in if skipBlockchain then (Inr (), w2)
                 else (let h = hash b; num = number b
                       in case getTd (chain w2) (parentHash b) (number b - 1) of
                            Inl e \<Rightarrow> (Inl e, w2)
                          | Inr ptd \<Rightarrow>
                              (let td = ptd + difficulty b
                               in (Inr (),
                                   w2\<lparr>chain :=
                                         batch ([DBSetTD td num h] @ DBSetBlockOrHeader b
                                                @ [DBSetHashToNumber h num]
                                                @ DBSaveLookups h num True)
                                           (chain w2)\<rparr>)))))"

text \<open>\<^verbatim>\<open>try { this.running = true; ... } finally { this.running = false }\<close>\<close>

definition runWithoutSetHeadBody ::
  "env \<Rightarrow> runBlockOpts \<Rightarrow> receipt list option \<Rightarrow> bool \<Rightarrow> world \<Rightarrow> (error + unit) \<times> world" where
  "runWithoutSetHeadBody env opts rcpts skipBlockchain w =
     (let (r, w') = runWithoutSetHeadTry env opts rcpts skipBlockchain (w\<lparr>running := True\<rparr>)
      in (r, w'\<lparr>running := False\<rparr>))"

definition runWithoutSetHead ::
  "env \<Rightarrow> runBlockOpts \<Rightarrow> receipt list option \<Rightarrow> bool \<Rightarrow> bool \<Rightarrow> world \<Rightarrow> (error + bool) \<times> world" where
  "runWithoutSetHead env opts rcpts blocking skipBlockchain w =
     (if (\<not> blocking \<and> running w) \<or> \<not> started w \<or> shutdown w then (Inr False, w)
      else (case runWithLock (runWithoutSetHeadBody env opts rcpts skipBlockchain) w of
              (Inl e, w') \<Rightarrow> (Inl e, w')
            | (Inr u, w') \<Rightarrow> (Inr True, w')))"

subsection \<open>setHead\<close>

text \<open>The loop that saves the pending receipts of each block and deletes them from
  the map. A stored receipt list is truthy even when empty.\<close>

fun drainPending :: "block list \<Rightarrow> world \<Rightarrow> world" where
  "drainPending [] w = w"
| "drainPending (b # bs) w =
     (case pendingGet w (hash b) of
        None \<Rightarrow> drainPending bs w
      | Some rs \<Rightarrow> drainPending bs (pendingDelete (hash b) (saveReceipts b rs w)))"

text \<open>The loop over \<open>chainPointers\<close>: a \<^verbatim>\<open>null\<close> entry is skipped; for any other the block
  the store has under the entry's number must carry the entry's hash.\<close>

fun checkCanonical :: "(string \<times> block option) list \<Rightarrow> chain \<Rightarrow> error + unit" where
  "checkCanonical [] c = Inr ()"
| "checkCanonical ((blockName, None) # ps) c = checkCanonical ps c"
| "checkCanonical ((blockName, Some b) # ps) c =
     (case getBlock c (ByNumber (number b)) of
        Inl e \<Rightarrow> Inl e
      | Inr blockByNumber \<Rightarrow>
          if hash blockByNumber \<noteq> hash b
          then Inl (Error (blockName @ '' not in canonical chain''))
          else checkCanonical ps c)"

text \<open>The locked body. \<open>blocks[blocks.length - 1]\<close> of an empty array is
  \<^verbatim>\<open>undefined\<close>, whose \<^verbatim>\<open>header\<close> cannot be read. \<open>chainPointers\<close> holds the one entry
  the source gives it.\<close>

definition setHeadBody ::
  "env \<Rightarrow> block list \<Rightarrow> block option \<Rightarrow> block option \<Rightarrow> world \<Rightarrow> (error + bool) \<times> world" where
  "setHeadBody env blks finalizedBlock safeBlock w =
     (case blks of
        [] \<Rightarrow> (Inl (TypeError ''Cannot read properties of undefined''), w)
      | _ # _ \<Rightarrow>
          (let vmHeadBlock = last blks;
               chainPointers = [(''vmHeadBlock'', Some vmHeadBlock)]
           in if \<not> hasStateRoot (vm w) (stateRoot vmHeadBlock)
              then (Inl (Error ''vmHeadBlock stateRoot not found''), w)
              else (case putBlocks env blks (chain w) of
                      (Some e, c') \<Rightarrow> (Inl e, w\<lparr>chain := c'\<rparr>)
                    | (None, c') \<Rightarrow>
                        (let w1 = drainPending blks (w\<lparr>chain := c'\<rparr>)
                         in case checkCanonical chainPointers (chain w1) of
                              Inl e \<Rightarrow> (Inl e, w1)
                            | Inr u \<Rightarrow>
                                (let w2 = setIteratorHead ''vm'' (hash vmHeadBlock) w1;
                                     w3 = (case safeBlock of
                                             None \<Rightarrow> w2
                                           | Some s \<Rightarrow> setIteratorHead ''safe'' (hash s) w2);
                                     w4 = (case finalizedBlock of
                                             None \<Rightarrow> w3
                                           | Some f \<Rightarrow> setIteratorHead ''finalized'' (hash f) w3)
                                 in (Inr True, emit ChainUpdated w4))))))"

definition setHead ::
  "env \<Rightarrow> block list \<Rightarrow> block option \<Rightarrow> block option \<Rightarrow> world \<Rightarrow> (error + bool) \<times> world" where
  "setHead env blks finalizedBlock safeBlock w =
     (if \<not> started w \<or> shutdown w then (Inr False, w)
      else runWithLock (setHeadBody env blks finalizedBlock safeBlock) w)"

subsection \<open>run\<close>

text \<open>The variables the per-block callback closes over: \<open>headBlock\<close>, \<open>parentState\<close>,
  \<open>errorBlock\<close> and \<open>txCounter\<close> are reset before every pass of the iterator,
  \<open>clearCache\<close> lives across passes.\<close>

record cbState =
  headBlock :: "block option"
  parentState :: "root option"
  errorBlock :: "block option"
  cbClearCache :: bool
  txCounter :: nat

text \<open>\<open>numExecuted: number | null | undefined\<close>\<close>

datatype numExecuted = Undefined | Null | Num int

text \<open>The \<^verbatim>\<open>try\<close> block of the callback: total difficulty of the parent, hardfork
  switch, validation flags, the stop check, the block run, the receipts, the new head.\<close>

definition onBlockTry :: "env \<Rightarrow> block \<Rightarrow> cbState \<Rightarrow> world \<Rightarrow> (error + unit) \<times> cbState \<times> world" where
  "onBlockTry env b cb w =
     (case getTotalDifficulty (chain w) (parentHash b) of
        Inl e \<Rightarrow> (Inl e, cb, w)
      | Inr td \<Rightarrow>
          (let hf = getHardforkBy env (number b) td (timestamp b);
               w1 = (if hf \<noteq> hardfork w
                     then (let w' = emit (HardforkSwitch (number b) (hash b) (hardfork w) hf) w;
                               (hf', w'') = setHardforkBy env (number b) td (timestamp b) w'
                           in w''\<lparr>hardfork := hf'\<rparr>)
                     else w);
               skipBV = (consensusType env = ProofOfAuthority)
           in if \<not> started w1 then (Inl (Error ''Execution stopped''), cb, w1)
              else (case callRunBlock env
                            \<lparr>block = b, root = parentState cb, clearCache = Some (cbClearCache cb),
                             skipBlockValidation = Some skipBV, skipHeaderValidation = Some True\<rparr> w1 of
                      (Inl e, w2) \<Rightarrow> (Inl e, cb, w2)
                    | (Inr res, w2) \<Rightarrow>
                        (Inr (),
                         cb\<lparr>txCounter := txCounter cb + length (transactions b),
                            headBlock := Some b,
                            parentState := Some (stateRoot b)\<rparr>,
                         saveReceipts b (receipts res) w2))))"

text \<open>The callback: the parent state is chosen first (outside the \<^verbatim>\<open>try\<close>, so a failed
  parent lookup leaves \<open>errorBlock\<close> unset), then the \<^verbatim>\<open>try\<close> block runs and its \<^verbatim>\<open>catch\<close>
  records the block before throwing again.\<close>

definition onBlock :: "env \<Rightarrow> block \<Rightarrow> bool \<Rightarrow> cbState \<times> world \<Rightarrow> (error + unit) \<times> cbState \<times> world" where
  "onBlock env b reorg s =
     (let (cb, w) = s
      in case (if headBlock cb = None \<or> reorg
               then (case getBlock (chain w) (ByHash (parentHash b)) of
                       Inl e \<Rightarrow> Inl e
                     | Inr hb \<Rightarrow>
                         Inr (cb\<lparr>headBlock := Some hb,
                                 parentState := Some (stateRoot hb),
                                 cbClearCache := (if reorg then True
                                                  else getStateRoot (vm w) \<noteq> stateRoot hb)\<rparr>))
               else Inr (cb\<lparr>cbClearCache := False\<rparr>)) of
           Inl e \<Rightarrow> (Inl e, cb, w)
         | Inr cb1 \<Rightarrow>
             (case onBlockTry env b cb1 w of
                (Inl e, cb2, w2) \<Rightarrow> (Inl e, cb2\<lparr>errorBlock := Some b\<rparr>, w2)
              | (Inr u, cb2, w2) \<Rightarrow> (Inr u, cb2, w2)))"

text \<open>
  Modelled from the spec: \<^verbatim>\<open>iterate(name, callback(block, reorg), maxBlocks, releaseLock)\<close>
  delivers blocks from the named cursor, at most \<open>maxBlocks\<close> of them, and returns how
  many callbacks it ran. After each callback that returns, the cursor moves to the block
  delivered; a callback that throws ends the pass with the cursor on the last block that
  succeeded. The first argument counts the deliveries left.
\<close>

fun iterator ::
  "env \<Rightarrow> string \<Rightarrow> (block \<Rightarrow> bool \<Rightarrow> 'c \<times> world \<Rightarrow> (error + unit) \<times> 'c \<times> world) \<Rightarrow>
   nat \<Rightarrow> block option \<Rightarrow> nat \<Rightarrow> 'c \<times> world \<Rightarrow> (error + nat) \<times> 'c \<times> world" where
  "iterator env name cb 0 lastBlock blocksRanCounter s = (Inr blocksRanCounter, s)"
| "iterator env name cb (Suc k) lastBlock blocksRanCounter s =
     (case nextBlock env name lastBlock (chain (snd s)) of
        None \<Rightarrow> (Inr blocksRanCounter, s)
      | Some (b, reorg) \<Rightarrow>
          (case cb b reorg s of
             (Inl e, c', w') \<Rightarrow> (Inl e, c', w')
           | (Inr u, c', w') \<Rightarrow>
               iterator env name cb k (Some b) (Suc blocksRanCounter)
                 (c', w'\<lparr>chain := (chain w')\<lparr>heads := (heads (chain w'))(name := hash b)\<rparr>\<rparr>)))"

text \<open>The \<^verbatim>\<open>.catch\<close> handler of the iterator's promise. With an error block it tries the
  back step when the rendered error names a missing state root and the block is above
  number 1, emits the VM error event and returns the distance from the start head to the
  error block (\<^verbatim>\<open>Number\<close> of the BigInt difference, taken as exact); without one it returns
  \<^verbatim>\<open>null\<close>.\<close>

definition onIteratorError :: "error \<Rightarrow> cbState \<Rightarrow> block \<Rightarrow> world \<Rightarrow> numExecuted \<times> world" where
  "onIteratorError err cb startHeadBlock w =
     (case errorBlock cb of
        None \<Rightarrow> (Null, emit (Logged LError ''VM execution failed with error'') w)
      | Some eb \<Rightarrow>
          (let w1 =
                 (if includes_s (toLowerCase (render err)) ''does not contain state root''
                     \<and> number eb > 1
                  then (let hasParentStateRoot =
                              (case headBlock cb of
                                 None \<Rightarrow> False
                               | Some hb \<Rightarrow> hasStateRoot (vm w) (stateRoot hb));
                            backStepToHash =
                              (case headBlock cb of None \<Rightarrow> None | Some hb \<Rightarrow> Some (parentHash hb))
                        in case (hasParentStateRoot, backStepToHash) of
                             (True, Some h) \<Rightarrow>
                               setIteratorHead ''vm'' h (emit (Logged LWarn ''backStepping vmHead'') w)
                           | _ \<Rightarrow> emit (Logged LError ''could not back step to vmHead'') w)
                  else emit (Logged LWarn ''Execution of block failed'') w);
               w2 = emit (VMErrorEmitted err) w1;
               actualExecuted = number eb - number startHeadBlock
           in (Num actualExecuted, w2)))"

text \<open>The callback's variables at the start of a pass; \<open>clearCache\<close> keeps the value
  the pass before left.\<close>

definition cbStart :: "bool \<Rightarrow> cbState" where
  "cbStart cc = \<lparr>headBlock = None, parentState = None, errorBlock = None,
                 cbClearCache = cc, txCounter = 0\<rparr>"

text \<open>One turn of the \<^verbatim>\<open>while\<close> loop up to \<^verbatim>\<open>numExecuted = await this.vmPromise\<close>: the
  callback's variables are reset, the iterator runs, and its error, if any, goes to the
  handler.\<close>

definition runPass :: "env \<Rightarrow> block \<Rightarrow> bool \<Rightarrow> world \<Rightarrow> numExecuted \<times> cbState \<times> world" where
  "runPass env startHeadBlock cc w =
     (case iterator env ''vm'' (onBlock env) (numBlocksPerIteration env) None 0 (cbStart cc, w) of
        (Inr n, cb, w') \<Rightarrow> (Num (int n), cb, w')
      | (Inl e, cb, w') \<Rightarrow>
          (let (ne, w'') = onIteratorError e cb startHeadBlock w' in (ne, cb, w'')))"

text \<open>The condition of the \<^verbatim>\<open>while\<close> loop.\<close>

definition loopCond :: "env \<Rightarrow> bool \<Rightarrow> bool \<Rightarrow> block \<Rightarrow> block \<Rightarrow> numExecuted \<Rightarrow> world \<Rightarrow> bool" where
  "loopCond env loop runOnlybatched startHeadBlock canonicalHead numEx w =
     (started w \<and> \<not> shutdown w
      \<and> (\<not> runOnlybatched
         \<or> (runOnlybatched
            \<and> number canonicalHead - number startHeadBlock \<ge> int (numBlocksPerIteration env)))
      \<and> (numEx = Undefined \<or> (loop \<and> numEx = Num (int (numBlocksPerIteration env))))
      \<and> hash startHeadBlock \<noteq> hash canonicalHead)"

text \<open>The \<^verbatim>\<open>while\<close> loop over the start head, the canonical head, \<open>numExecuted\<close> and
  \<open>clearCache\<close>. After a pass that did not end in \<^verbatim>\<open>null\<close> the two heads are read
  again. Nothing bounds the number of turns, so the value is an option: \<open>None\<close> is a
  loop that never ends.\<close>

partial_function (option) runLoop ::
  "env \<Rightarrow> bool \<Rightarrow> bool \<Rightarrow> block \<Rightarrow> block \<Rightarrow> numExecuted \<Rightarrow> bool \<Rightarrow> world \<Rightarrow>
   ((error + numExecuted) \<times> world) option" where
  "runLoop env loop runOnlybatched startHeadBlock canonicalHead numEx cc w =
     (if loopCond env loop runOnlybatched startHeadBlock canonicalHead numEx w
      then (case runPass env startHeadBlock cc w of
              (ne, cb, w') \<Rightarrow>
                (if ne = Null
                 then runLoop env loop runOnlybatched startHeadBlock canonicalHead ne
                        (cbClearCache cb) w'
                 else (case getIteratorHead (chain w') ''vm'' of
                         Inl e \<Rightarrow> Some (Inl e, w')
                       | Inr endHeadBlock \<Rightarrow>
                           (case getCanonicalHeadBlock (chain w') of
                              Inl e \<Rightarrow> Some (Inl e, w')
                            | Inr canonicalHead' \<Rightarrow>
                                runLoop env loop runOnlybatched endHeadBlock canonicalHead' ne
                                  (cbClearCache cb) w'))))
      else Some (Inr numEx, w))"

text \<open>The locked body of \<open>run\<close>: \<^verbatim>\<open>return numExecuted ?? 0\<close> inside
  \<^verbatim>\<open>try { this.running = true; ... } finally { this.running = false }\<close>.\<close>

definition runBody :: "env \<Rightarrow> bool \<Rightarrow> bool \<Rightarrow> world \<Rightarrow> ((error + int) \<times> world) option" where
  "runBody env loop runOnlybatched w =
     (let w1 = w\<lparr>running := True\<rparr>
      in case getIteratorHead (chain w1) ''vm'' of
           Inl e \<Rightarrow> Some (Inl e, w1\<lparr>running := False\<rparr>)
         | Inr startHeadBlock \<Rightarrow>
             (case getCanonicalHeadBlock (chain w1) of
                Inl e \<Rightarrow> Some (Inl e, w1\<lparr>running := False\<rparr>)
              | Inr canonicalHead \<Rightarrow>
                  (case runLoop env loop runOnlybatched startHeadBlock canonicalHead Undefined
                          False w1 of
                     None \<Rightarrow> None
                   | Some (Inl e, w2) \<Rightarrow> Some (Inl e, w2\<lparr>running := False\<rparr>)
                   | Some (Inr ne, w2) \<Rightarrow>
                       Some (Inr (case ne of Num n \<Rightarrow> n | _ \<Rightarrow> 0), w2\<lparr>running := False\<rparr>))))"

definition run :: "env \<Rightarrow> bool \<Rightarrow> bool \<Rightarrow> world \<Rightarrow> ((error + int) \<times> world) option" where
  "run env loop runOnlybatched w =
     (if running w \<or> \<not> started w \<or> shutdown w then Some (Inr 0, w)
      else runWithLockP (runBody env loop runOnlybatched) w)"

subsection \<open>A reference store, iterator and VM for the end-to-end scenarios\<close>

text \<open>Modelled from the spec: \<^verbatim>\<open>putBlocks\<close> establishes the canonical number-to-hash
  mapping for each block in order, stores the block with its indexes and total
  difficulty, and makes the last block the canonical head.\<close>

definition putBlock :: "chain \<Rightarrow> block \<Rightarrow> chain" where
  "putBlock c b =
     c\<lparr>blocks := (blocks c)(hash b \<mapsto> b),
       hashToNumber := (hashToNumber c)(hash b \<mapsto> number b),
       numberToHash := (numberToHash c)(number b \<mapsto> hash b),
       totalDifficulty := (totalDifficulty c)(hash b \<mapsto>
          (case totalDifficulty c (parentHash b) of None \<Rightarrow> 0 | Some td \<Rightarrow> td) + difficulty b),
       headHash := hash b\<rparr>"

definition putBlocksCanonical :: "block list \<Rightarrow> chain \<Rightarrow> error option \<times> chain" where
  "putBlocksCanonical blks c = (None, foldl putBlock c blks)"

text \<open>Modelled from the spec: with no writer beside the engine, the iterator delivers
  the canonical block one above the cursor; the reorg flag is raised when that block
  does not extend the block delivered before it.\<close>

definition nextCanonical :: "string \<Rightarrow> block option \<Rightarrow> chain \<Rightarrow> (block \<times> bool) option" where
  "nextCanonical name lastBlock c =
     (case hashToNumber c (heads c name) of
        None \<Rightarrow> None
      | Some n \<Rightarrow>
          (case getBlock c (ByNumber (n + 1)) of
             Inl e \<Rightarrow> None
           | Inr b \<Rightarrow>
               Some (b, case lastBlock of None \<Rightarrow> False | Some l \<Rightarrow> hash l \<noteq> parentHash b)))"

text \<open>Modelled from the spec: \<^verbatim>\<open>runBlock\<close> fails with a missing-state-root error when
  the root it is to start from is not in the trie, and leaves no partial state; otherwise
  it produces the block's state root and one receipt per transaction.\<close>

definition stateVM :: "runBlockOpts \<Rightarrow> string \<Rightarrow> vmState \<Rightarrow> (error + runBlockResult) \<times> vmState" where
  "stateVM opts hf v =
     (let r = (case root opts of None \<Rightarrow> currentRoot v | Some r \<Rightarrow> r)
      in if r \<notin> roots v then (Inl (Error ''State trie does not contain state root''), v)
         else (Inr \<lparr>receipts = transactions (block opts), gasUsed = 0\<rparr>,
               v\<lparr>roots := insert (stateRoot (block opts)) (roots v),
                 currentRoot := stateRoot (block opts)\<rparr>))"

text \<open>The scenarios' chain: block \<open>n\<close> has hash \<open>100 + n\<close>, state root \<open>200 + n\<close> and
  one transaction; the hardfork table changes at block 5.\<close>

definition blockN :: "nat \<Rightarrow> block" where
  "blockN n = \<lparr>hash = 100 + n, parentHash = 99 + n, number = int n, stateRoot = 200 + n,
               timestamp = 12 * int n, difficulty = 1, transactions = [n]\<rparr>"

definition storeUpTo :: "nat \<Rightarrow> chain" where
  "storeUpTo N =
     \<lparr>blocks = (\<lambda>h. if 100 \<le> h \<and> h \<le> 100 + N then Some (blockN (h - 100)) else None),
      hashToNumber = (\<lambda>h. if 100 \<le> h \<and> h \<le> 100 + N then Some (int (h - 100)) else None),
      numberToHash = (\<lambda>n. if 0 \<le> n \<and> n \<le> int N then Some (100 + nat n) else None),
      totalDifficulty = (\<lambda>h. if 100 \<le> h \<and> h \<le> 100 + N then Some (1 + int (h - 100)) else None),
      heads = (\<lambda>name. 100),
      headHash = 100 + N\<rparr>"

definition tableAt5 :: "int \<Rightarrow> int \<Rightarrow> int \<Rightarrow> string" where
  "tableAt5 num td ts = (if num < 5 then ''berlin'' else ''london'')"

definition scenarioEnv :: "nat \<Rightarrow> env" where
  "scenarioEnv k =
     \<lparr>putBlocks = putBlocksCanonical, nextBlock = nextCanonical, runBlock = stateVM,
      getHardforkBy = tableAt5, consensusType = ProofOfWork, numBlocksPerIteration = k\<rparr>"

text \<open>The engine started on the store with blocks \<open>0..N\<close>, the \<open>vm\<close> cursor on block
  \<open>n\<close>, the state roots of blocks \<open>0..n\<close> in the trie and the hardfork of block \<open>n\<close>
  set.\<close>

definition engineAt :: "nat \<Rightarrow> nat \<Rightarrow> world" where
  "engineAt N n =
     \<lparr>started = True, shutdown = False, running = False,
      hardfork = tableAt5 (int n) 0 0, commonHardfork = tableAt5 (int n) 0 0,
      receiptsManager = True, pendingReceipts = Some Map.empty,
      chain = (storeUpTo N)\<lparr>heads := (heads (storeUpTo N))(''vm'' := 100 + n)\<rparr>,
      vm = \<lparr>roots = {200..200 + n}, currentRoot = 200 + n\<rparr>,
      events = []\<rparr>"

text \<open>A VM that, beside the above, reports a missing state root while running the
  block of the given number although the parent root is in the trie (the case the
  source describes as observed under forks or races).\<close>

definition faultyVM :: "int \<Rightarrow> runBlockOpts \<Rightarrow> string \<Rightarrow> vmState \<Rightarrow> (error + runBlockResult) \<times> vmState" where
  "faultyVM n opts hf v =
     (if number (block opts) = n then (Inl (Error ''State trie does not contain state root''), v)
      else stateVM opts hf v)"


text \<open>A block of number 10 that is not the canonical block 10 of the scenarios' chain.\<close>

definition sideBlock :: block where
  "sideBlock = \<lparr>hash = 999, parentHash = 109, number = 10, stateRoot = 888,
                timestamp = 121, difficulty = 1, transactions = []\<rparr>"




text \<open>Options that name a block and a parent root only.\<close>

definition optsFor :: "block \<Rightarrow> root option \<Rightarrow> runBlockOpts" where
  "optsFor b r = \<lparr>block = b, root = r, clearCache = None,
                  skipBlockValidation = None, skipHeaderValidation = None\<rparr>"

text \<open>The engine of the scenarios after block 11 has been staged with
  \<open>runWithoutSetHead\<close>.\<close>

definition stagedEngine :: world where
  "stagedEngine =
     snd (runWithoutSetHead (scenarioEnv 4) (optsFor (blockN 11) (Some 210)) None True False
            (engineAt 10 10))"

subsection \<open>Observations on the event log and on results\<close>

fun isHeadSet :: "event \<Rightarrow> bool" where
  "isHeadSet (IteratorHeadSet name h) = True"
| "isHeadSet e = False"

fun isSwitch :: "event \<Rightarrow> bool" where
  "isSwitch (HardforkSwitch num h old new) = True"
| "isSwitch e = False"

fun isRunBlock :: "event \<Rightarrow> bool" where
  "isRunBlock (RunBlockCalled opts hf) = True"
| "isRunBlock e = False"


text \<open>The writes \<open>runWithoutSetHead\<close> puts into its one batch, for a block and the total
  difficulty of its parent.\<close>

definition stagingOps :: "block \<Rightarrow> int \<Rightarrow> dbOp list" where
  "stagingOps b ptd =
     [DBSetTD (ptd + difficulty b) (number b) (hash b)] @ DBSetBlockOrHeader b
     @ [DBSetHashToNumber (hash b) (number b)] @ DBSaveLookups (hash b) (number b) True"

text \<open>The world a call of \<open>run\<close> that returns leaves behind (for a call that does not
  return, the world it started from).\<close>

definition worldAfter :: "world \<Rightarrow> ((error + int) \<times> world) option \<Rightarrow> world" where
  "worldAfter w r = (case r of None \<Rightarrow> w | Some (x, w') \<Rightarrow> w')"

text \<open>What the scenarios observe of a call of \<open>run\<close>: the value returned, the block the
  \<open>vm\<close> cursor is on, the number of blocks handed to the VM, the engine's hardfork and
  the switch messages.\<close>

definition observed ::
  "((error + int) \<times> world) option \<Rightarrow> ((error + int) \<times> hash \<times> nat \<times> string \<times> event list) option" where
  "observed r =
     map_option (\<lambda>(x, w). (x, heads (chain w) ''vm'', length (filter isRunBlock (events w)),
                            hardfork w, filter isSwitch (events w))) r"

subsection \<open>The execution lock under interleaving\<close>











section \<open>Properties\<close>

subsection \<open>Frame lemmas\<close>

lemma chain_emit [simp]: "chain (emit e w) = chain w"
  and vm_emit [simp]: "vm (emit e w) = vm w"
  and pending_emit [simp]: "pendingReceipts (emit e w) = pendingReceipts w"
  and events_emit [simp]: "events (emit e w) = events w @ [e]"
  and flags_emit [simp]: "started (emit e w) = started w" "shutdown (emit e w) = shutdown w"
     "running (emit e w) = running w" "receiptsManager (emit e w) = receiptsManager w"
     "hardfork (emit e w) = hardfork w" "commonHardfork (emit e w) = commonHardfork w"
  by (simp_all add: emit_def)

lemma pendingGet_emit [simp]: "pendingGet (emit e w) h = pendingGet w h"
  by (simp add: pendingGet_def)

lemma saveReceipts_frame [simp]:
  "chain (saveReceipts b rs w) = chain w"
  "vm (saveReceipts b rs w) = vm w"
  "pendingReceipts (saveReceipts b rs w) = pendingReceipts w"
  "receiptsManager (saveReceipts b rs w) = receiptsManager w"
  "pendingGet (saveReceipts b rs w) h = pendingGet w h"
  by (simp_all add: saveReceipts_def pendingGet_def)

lemma saveReceipts_events:
  "events (saveReceipts b rs w) = events w @ (if receiptsManager w then [SavedReceipts b rs] else [])"
  by (simp add: saveReceipts_def)

lemma pendingDelete_frame [simp]:
  "chain (pendingDelete h w) = chain w"
  "vm (pendingDelete h w) = vm w"
  "events (pendingDelete h w) = events w"
  "receiptsManager (pendingDelete h w) = receiptsManager w"
  by (simp_all add: pendingDelete_def)

lemma pendingGet_pendingDelete [simp]:
  "pendingGet (pendingDelete h w) h' = (if h' = h then None else pendingGet w h')"
  by (simp add: pendingDelete_def pendingGet_def split: option.splits)

lemma drainPending_frame [simp]:
  "chain (drainPending bs w) = chain w"
  "vm (drainPending bs w) = vm w"
  "receiptsManager (drainPending bs w) = receiptsManager w"
  by (induction bs arbitrary: w; simp split: option.splits)+

lemma drainPending_headsets [simp]:
  "filter isHeadSet (events (drainPending bs w)) = filter isHeadSet (events w)"
  by (induction bs arbitrary: w) (simp_all add: saveReceipts_events split: option.splits)

lemma drainPending_other:
  "h \<notin> hash ` set bs \<Longrightarrow> pendingGet (drainPending bs w) h = pendingGet w h"
  by (induction bs arbitrary: w) (auto split: option.splits)

lemma drainPending_gone_mono:
  "pendingGet w h = None \<Longrightarrow> pendingGet (drainPending bs w) h = None"
  by (induction bs arbitrary: w) (auto split: option.splits)

lemma drainPending_drained:
  "b \<in> set bs \<Longrightarrow> pendingGet (drainPending bs w) (hash b) = None"
proof (induction bs arbitrary: w)
  case Nil
  then show ?case by simp
next
  case (Cons a bs)
  show ?case
  proof (cases "hash a = hash b")
    case True
    then show ?thesis
      by (auto split: option.splits intro: drainPending_gone_mono)
  next
    case False
    with Cons have "b \<in> set bs" by auto
    then show ?thesis using Cons.IH by (simp split: option.splits)
  qed
qed

lemma drainPending_events_prefix:
  "\<exists>evs. events (drainPending bs w) = events w @ evs"
proof (induction bs arbitrary: w)
  case Nil
  then show ?case by simp
next
  case (Cons a bs)
  show ?case
  proof (cases "pendingGet w (hash a)")
    case None
    then show ?thesis using Cons.IH[of w] by simp
  next
    case (Some rs)
    let ?w1 = "pendingDelete (hash a) (saveReceipts a rs w)"
    obtain evs where "events (drainPending bs ?w1) = events ?w1 @ evs"
      using Cons.IH[of ?w1] by blast
    then have "events (drainPending (a # bs) w)
               = events w @ ((if receiptsManager w then [SavedReceipts a rs] else []) @ evs)"
      using Some by (simp add: saveReceipts_events)
    then show ?thesis by blast
  qed
qed

lemma saveReceipts_headsets [simp]:
  "filter isHeadSet (events (saveReceipts b rs w)) = filter isHeadSet (events w)"
  by (simp add: saveReceipts_events)

lemma drainPending_saved:
  "b \<in> set bs \<Longrightarrow> pendingGet w (hash b) = Some rs \<Longrightarrow> receiptsManager w \<Longrightarrow>
   \<exists>b' \<in> set bs. hash b' = hash b \<and> SavedReceipts b' rs \<in> set (events (drainPending bs w))"
proof (induction bs arbitrary: w)
  case Nil
  then show ?case by simp
next
  case (Cons a bs)
  show ?case
  proof (cases "hash a = hash b")
    case True
    let ?w1 = "pendingDelete (hash a) (saveReceipts a rs w)"
    obtain evs where "events (drainPending bs ?w1) = events ?w1 @ evs"
      using drainPending_events_prefix by blast
    then have "SavedReceipts a rs \<in> set (events (drainPending bs ?w1))"
      using Cons.prems(3) by (simp add: saveReceipts_events)
    then show ?thesis using True Cons.prems(2) by auto
  next
    case False
    with Cons.prems have in_bs: "b \<in> set bs" by auto
    show ?thesis
    proof (cases "pendingGet w (hash a)")
      case None
      then show ?thesis using Cons.IH[OF in_bs Cons.prems(2) Cons.prems(3)] by auto
    next
      case (Some ra)
      let ?w1 = "pendingDelete (hash a) (saveReceipts a ra w)"
      have "pendingGet ?w1 (hash b) = Some rs" using False Cons.prems(2) by simp
      moreover have "receiptsManager ?w1" using Cons.prems(3) by simp
      ultimately show ?thesis using Cons.IH[OF in_bs, of ?w1] Some by auto
    qed
  qed
qed


lemma setIteratorHead_frame [simp]:
  "vm (setIteratorHead name h w) = vm w"
  "pendingGet (setIteratorHead name h w) k = pendingGet w k"
  "events (setIteratorHead name h w) = events w @ [IteratorHeadSet name h]"
  "heads (chain (setIteratorHead name h w)) = (heads (chain w))(name := h)"
  by (simp_all add: setIteratorHead_def pendingGet_def)

subsection \<open>The guards in front of the lock\<close>

text \<open>
  C9. When the engine is not started or is shutting down, \<open>runWithoutSetHead\<close> and
  \<open>setHead\<close> return false and \<open>run\<close> returns 0, and the world is the one the call
  started from: no lock event, no block run, no change of the pending receipts, of the
  database or of a cursor. \<open>runWithoutSetHead\<close> called non-blocking while an execution
  is running does the same.
\<close>

theorem guards_return_at_once:
  "(\<not> started w \<or> shutdown w \<longrightarrow>
      runWithoutSetHead env opts rcpts blocking skipBlockchain w = (Inr False, w)
    \<and> setHead env blks finalizedBlock safeBlock w = (Inr False, w)
    \<and> run env loop runOnlybatched w = Some (Inr 0, w))
   \<and> (running w \<longrightarrow> runWithoutSetHead env opts rcpts False skipBlockchain w = (Inr False, w))"
  by (auto simp: runWithoutSetHead_def setHead_def run_def)

theorem guards_return_at_once_witness:
  "shutdown ((engineAt 10 0)\<lparr>shutdown := True\<rparr>)
   \<and> run (scenarioEnv 4) True False ((engineAt 10 0)\<lparr>shutdown := True\<rparr>)
       = Some (Inr 0, (engineAt 10 0)\<lparr>shutdown := True\<rparr>)
   \<and> setHead (scenarioEnv 4) [blockN 1] None None ((engineAt 10 0)\<lparr>shutdown := True\<rparr>)
       = (Inr False, (engineAt 10 0)\<lparr>shutdown := True\<rparr>)
   \<and> running ((engineAt 10 0)\<lparr>running := True\<rparr>)
   \<and> runWithoutSetHead (scenarioEnv 4)
         \<lparr>block = blockN 1, root = None, clearCache = None,
          skipBlockValidation = None, skipHeaderValidation = None\<rparr>
         None False False ((engineAt 10 0)\<lparr>running := True\<rparr>)
       = (Inr False, (engineAt 10 0)\<lparr>running := True\<rparr>)"
  using guards_return_at_once
          [of "(engineAt 10 0)\<lparr>shutdown := True\<rparr>" "scenarioEnv 4" _ _ _ _ "[blockN 1]" None None
              True False]
        guards_return_at_once
          [of "(engineAt 10 0)\<lparr>running := True\<rparr>" "scenarioEnv 4"
              "\<lparr>block = blockN 1, root = None, clearCache = None,
                skipBlockValidation = None, skipHeaderValidation = None\<rparr>" None _ False]
  by simp

subsection \<open>setHead: failure and the cursors\<close>





subsection \<open>Evaluating the scenarios\<close>

lemmas engine_defs =
  run_def runWithLockP_def runBody_def runPass_def cbStart_def loopCond_def onIteratorError_def
  onBlock_def onBlockTry_def callRunBlock_def saveReceipts_def setHardforkBy_def
  setIteratorHead_def emit_def getIteratorHead_def getCanonicalHeadBlock_def
  getBlockByHash_def getTotalDifficulty_def getTd_def hasStateRoot_def getStateRoot_def
  runWithoutSetHead_def runWithoutSetHeadBody_def runWithoutSetHeadTry_def runWithLock_def
  setHead_def setHeadBody_def pendingGet_def pendingSet_def pendingDelete_def batch_def
  DBSetTD_def DBSetBlockOrHeader_def DBSetHashToNumber_def DBSaveLookups_def

lemmas scenario_defs =
  scenarioEnv_def engineAt_def storeUpTo_def blockN_def tableAt5_def stateVM_def
  nextCanonical_def putBlocksCanonical_def putBlock_def optsFor_def

lemma iterator_numeral:
  "iterator env name cb (numeral k) lastBlock blocksRanCounter s =
     (case nextBlock env name lastBlock (chain (snd s)) of
        None \<Rightarrow> (Inr blocksRanCounter, s)
      | Some (b, reorg) \<Rightarrow>
          (case cb b reorg s of
             (Inl e, c', w') \<Rightarrow> (Inl e, c', w')
           | (Inr u, c', w') \<Rightarrow>
               iterator env name cb (pred_numeral k) (Some b) (Suc blocksRanCounter)
                 (c', w'\<lparr>chain := (chain w')\<lparr>heads := (heads (chain w'))(name := hash b)\<rparr>\<rparr>)))"
  by (simp add: numeral_eq_Suc)

lemma staged_ok:
  "fst (runWithoutSetHead (scenarioEnv 4) (optsFor (blockN 11) (Some 210)) None True False
            (engineAt 10 10)) = Inr True"
  by (simp add: engine_defs scenario_defs Let_def)

lemma stagedEngine_facts:
  "started stagedEngine" "\<not> shutdown stagedEngine" "receiptsManager stagedEngine"
  "hasStateRoot (vm stagedEngine) 211"
  "pendingGet stagedEngine 111 = Some [11]"
  "heads (chain stagedEngine) = (\<lambda>name. 100)(''vm'' := 110)"
  by (simp_all add: stagedEngine_def engine_defs scenario_defs Let_def)

lemma pendingSet_frame [simp]:
  "chain (pendingSet h rs w) = chain w"
  "vm (pendingSet h rs w) = vm w"
  "events (pendingSet h rs w) = events w"
  by (simp_all add: pendingSet_def)

lemma callRunBlock_frame:
  "callRunBlock env opts w = (r, w') \<Longrightarrow> chain w' = chain w"
  "callRunBlock env opts w = (r, w') \<Longrightarrow> events w' = events w @ [RunBlockCalled opts (commonHardfork w)]"
  "callRunBlock env opts w = (r, w') \<Longrightarrow> hardfork w' = hardfork w"
  "callRunBlock env opts w = (r, w') \<Longrightarrow> receiptsManager w' = receiptsManager w"
  by (auto simp: callRunBlock_def Let_def emit_def split: prod.splits)


subsection \<open>setHead: the pending receipts\<close>

lemma setHeadBody_pending:
  assumes "blks \<noteq> []" "hasStateRoot (vm w) (stateRoot (last blks))"
      and "putBlocks env blks (chain w) = (None, c')"
  shows "pendingGet (snd (setHeadBody env blks fin safe w)) h
           = pendingGet (drainPending blks (w\<lparr>chain := c'\<rparr>)) h"
    and "\<exists>evs. events (snd (setHeadBody env blks fin safe w))
           = events (drainPending blks (w\<lparr>chain := c'\<rparr>)) @ evs"
  using assms
  by (cases blks; simp add: setHeadBody_def Let_def
        del: drainPending.simps checkCanonical.simps split: sum.splits option.splits)+


text \<open>
  C5, as the code has it. A call of \<open>setHead\<close> that passes the guard, finds the state
  root of the last block and gets through \<open>putBlocks\<close> leaves no pending entry for any
  block of its argument, whether or not the canonicality check then succeeds; an entry
  that was there has been handed to the receipts manager, with a block of that hash
  from the argument, before it was deleted.
\<close>

theorem setHead_drains_pending:
  assumes "started w" and "\<not> shutdown w" and "blks \<noteq> []"
      and "hasStateRoot (vm w) (stateRoot (last blks))"
      and "fst (putBlocks env blks (chain w)) = None"
      and "b \<in> set blks"
  shows "pendingGet (snd (setHead env blks finalizedBlock safeBlock w)) (hash b) = None
       \<and> (\<forall>rs. pendingGet w (hash b) = Some rs \<and> receiptsManager w \<longrightarrow>
             (\<exists>b' \<in> set blks. hash b' = hash b
                \<and> SavedReceipts b' rs \<in> set (events (snd (setHead env blks finalizedBlock safeBlock w)))))"
proof -
  let ?w0 = "emit LockAcquired w"
  obtain c' where pb: "putBlocks env blks (chain ?w0) = (None, c')"
    using assms(5) by (cases "putBlocks env blks (chain w)") simp
  let ?wd = "drainPending blks (?w0\<lparr>chain := c'\<rparr>)"
  let ?body = "setHeadBody env blks finalizedBlock safeBlock ?w0"
  have res: "snd (setHead env blks finalizedBlock safeBlock w) = emit LockReleased (snd ?body)"
    using assms(1,2) by (simp add: setHead_def runWithLock_def split: prod.splits)
  have hsr: "hasStateRoot (vm ?w0) (stateRoot (last blks))" using assms(4) by simp
  have gone: "pendingGet (snd ?body) (hash b) = None"
    using setHeadBody_pending(1)[OF assms(3) hsr pb] drainPending_drained[OF assms(6)] by simp
  obtain evs where evs: "events (snd ?body) = events ?wd @ evs"
    using setHeadBody_pending(2)[OF assms(3) hsr pb] by blast
  have saved: "\<exists>b' \<in> set blks. hash b' = hash b \<and> SavedReceipts b' rs \<in> set (events (snd ?body))"
    if "pendingGet w (hash b) = Some rs" "receiptsManager w" for rs
  proof -
    have "pendingGet (?w0\<lparr>chain := c'\<rparr>) (hash b) = Some rs" "receiptsManager (?w0\<lparr>chain := c'\<rparr>)"
      using that by (simp_all add: pendingGet_def)
    from drainPending_saved[OF assms(6) this] evs show ?thesis by auto
  qed
  show ?thesis using res gone saved by auto
qed



theorem setHead_drains_pending_witness:
  "pendingGet stagedEngine (hash (blockN 11)) = Some [11]
   \<and> pendingGet (snd (setHead (scenarioEnv 4) [blockN 11] (Some (blockN 10)) None stagedEngine))
        (hash (blockN 11)) = None
   \<and> SavedReceipts (blockN 11) [11]
        \<in> set (events (snd (setHead (scenarioEnv 4) [blockN 11] (Some (blockN 10)) None stagedEngine)))"
proof -
  have h: "hash (blockN 11) = 111" "stateRoot (blockN 11) = 211"
    by (simp_all add: blockN_def)
  have pb: "fst (putBlocks (scenarioEnv 4) [blockN 11] (chain stagedEngine)) = None"
    by (simp add: scenarioEnv_def putBlocksCanonical_def)
  from setHead_drains_pending[of stagedEngine "[blockN 11]" "scenarioEnv 4" "blockN 11"
         "Some (blockN 10)" None] pb
  show ?thesis by (simp add: stagedEngine_facts h)
qed


text \<open>The claim as stated, for every call, fails: a call on an engine that is not
  started returns false and a call whose new head has no state root throws, and both
  leave the pending entry of the block in place.\<close>

theorem setHead_pending_counterexample:
  "fst (setHead (scenarioEnv 4) [blockN 11] None None (stagedEngine\<lparr>started := False\<rparr>)) = Inr False
   \<and> pendingGet (snd (setHead (scenarioEnv 4) [blockN 11] None None (stagedEngine\<lparr>started := False\<rparr>)))
        (hash (blockN 11)) = Some [11]
   \<and> fst (setHead (scenarioEnv 4) [blockN 11] None None
             ((engineAt 10 10)\<lparr>pendingReceipts := Some [hash (blockN 11) \<mapsto> [11]]\<rparr>))
       = Inl (Error ''vmHeadBlock stateRoot not found'')
   \<and> pendingGet (snd (setHead (scenarioEnv 4) [blockN 11] None None
             ((engineAt 10 10)\<lparr>pendingReceipts := Some [hash (blockN 11) \<mapsto> [11]]\<rparr>)))
        (hash (blockN 11)) = Some [11]"
proof -
  have "pendingGet (stagedEngine\<lparr>started := False\<rparr>) (hash (blockN 11)) = Some [11]"
    using stagedEngine_facts(5) by (simp add: pendingGet_def blockN_def)
  moreover have "fst (setHead (scenarioEnv 4) [blockN 11] None None
             ((engineAt 10 10)\<lparr>pendingReceipts := Some [hash (blockN 11) \<mapsto> [11]]\<rparr>))
       = Inl (Error ''vmHeadBlock stateRoot not found'')"
    "pendingGet (snd (setHead (scenarioEnv 4) [blockN 11] None None
             ((engineAt 10 10)\<lparr>pendingReceipts := Some [hash (blockN 11) \<mapsto> [11]]\<rparr>)))
        (hash (blockN 11)) = Some [11]"
    by (simp_all add: engine_defs scenario_defs Let_def)
  ultimately show ?thesis by (simp add: setHead_def)
qed


subsection \<open>runWithoutSetHead: the canonical mapping\<close>

lemma runWithoutSetHeadTry_chain:
  assumes "runWithoutSetHeadTry env opts rcpts False w = (Inr u, w')"
  shows "\<exists>ptd. getTd (chain w) (parentHash (block opts)) (number (block opts) - 1) = Inr ptd
           \<and> chain w' = batch (stagingOps (block opts) ptd) (chain w)"
proof (cases rcpts)
  case (Some rs)
  with assms show ?thesis
    by (auto simp: runWithoutSetHeadTry_def stagingOps_def Let_def split: sum.splits)
next
  case None
  let ?o = "opts\<lparr>clearCache := (case clearCache opts of None \<Rightarrow> Some (getStateRoot (vm w) \<noteq> (case root opts of None \<Rightarrow> getStateRoot (vm w) | Some r \<Rightarrow> r)) | Some x \<Rightarrow> Some x)\<rparr>"
  obtain r w1 where call: "callRunBlock env ?o w = (r, w1)" by (cases "callRunBlock env ?o w")
  then have "chain w1 = chain w" by (rule callRunBlock_frame)
  with assms None call show ?thesis
    by (auto simp: runWithoutSetHeadTry_def stagingOps_def Let_def split: sum.splits)
qed

lemma batch_stagingOps:
  "batch (stagingOps b ptd) c =
     c\<lparr>totalDifficulty := (totalDifficulty c)(hash b \<mapsto> ptd + difficulty b),
       blocks := (blocks c)(hash b \<mapsto> b),
       hashToNumber := (hashToNumber c)(hash b \<mapsto> number b)\<rparr>"
  by (simp add: batch_def stagingOps_def DBSetTD_def DBSetBlockOrHeader_def DBSetHashToNumber_def
        DBSaveLookups_def)


text \<open>
  C6. A call of \<open>runWithoutSetHead\<close> with \<open>skipBlockchain = false\<close> that returns true has
  written, in one batch, the total difficulty (the parent's plus the block's own), the
  block and the hash-to-number index, and has left the number-to-hash mapping as it was.
  Blocks being identified by their hash (if the block's hash is canonical already, the
  store holds this block under it), a lookup by number gives what it gave before.
\<close>

theorem runWithoutSetHead_keeps_canonical_map:
  assumes "runWithoutSetHead env opts rcpts blocking False w = (Inr True, w')"
  shows "\<exists>ptd. getTd (chain w) (parentHash (block opts)) (number (block opts) - 1) = Inr ptd
          \<and> chain w' = batch ([DBSetTD (ptd + difficulty (block opts)) (number (block opts)) (hash (block opts))]
                               @ DBSetBlockOrHeader (block opts)
                               @ [DBSetHashToNumber (hash (block opts)) (number (block opts))]
                               @ DBSaveLookups (hash (block opts)) (number (block opts)) True) (chain w)
          \<and> totalDifficulty (chain w') (hash (block opts)) = Some (ptd + difficulty (block opts))
          \<and> blocks (chain w') (hash (block opts)) = Some (block opts)
          \<and> hashToNumber (chain w') (hash (block opts)) = Some (number (block opts))
          \<and> numberToHash (chain w') = numberToHash (chain w)
          \<and> ((\<forall>n. numberToHash (chain w) n = Some (hash (block opts))
                    \<longrightarrow> blocks (chain w) (hash (block opts)) = Some (block opts))
               \<longrightarrow> (\<forall>n. getBlock (chain w') (ByNumber n) = getBlock (chain w) (ByNumber n)))"
proof -
  let ?w0 = "(emit LockAcquired w)\<lparr>running := True\<rparr>"
  obtain r w1 where tr: "runWithoutSetHeadTry env opts rcpts False ?w0 = (r, w1)"
    by (cases "runWithoutSetHeadTry env opts rcpts False ?w0")
  from assms tr have ok: "\<exists>u. r = Inr u" and w': "w' = emit LockReleased (w1\<lparr>running := False\<rparr>)"
    by (auto simp: runWithoutSetHead_def runWithLock_def runWithoutSetHeadBody_def
          split: if_splits sum.splits)
  then obtain u where "r = Inr u" by blast
  with tr runWithoutSetHeadTry_chain[of env opts rcpts ?w0 u w1]
  obtain ptd where ptd: "getTd (chain w) (parentHash (block opts)) (number (block opts) - 1) = Inr ptd"
    and ch: "chain w1 = batch (stagingOps (block opts) ptd) (chain w)"
    by auto
  from ch w' have ch': "chain w' = batch (stagingOps (block opts) ptd) (chain w)" by simp
  have look: "getBlock (chain w') (ByNumber n) = getBlock (chain w) (ByNumber n)"
    if "\<forall>n. numberToHash (chain w) n = Some (hash (block opts))
              \<longrightarrow> blocks (chain w) (hash (block opts)) = Some (block opts)" for n
    using that by (auto simp: ch' batch_stagingOps getBlockByHash_def split: option.splits)
  have ops: "chain w' = batch ([DBSetTD (ptd + difficulty (block opts)) (number (block opts)) (hash (block opts))]
                               @ DBSetBlockOrHeader (block opts)
                               @ [DBSetHashToNumber (hash (block opts)) (number (block opts))]
                               @ DBSaveLookups (hash (block opts)) (number (block opts)) True) (chain w)"
    using ch' by (simp add: stagingOps_def)
  have fields: "totalDifficulty (chain w') (hash (block opts)) = Some (ptd + difficulty (block opts))"
      "blocks (chain w') (hash (block opts)) = Some (block opts)"
      "hashToNumber (chain w') (hash (block opts)) = Some (number (block opts))"
      "numberToHash (chain w') = numberToHash (chain w)"
    by (simp_all add: ch' batch_stagingOps)
  from ptd ops fields look show ?thesis by blast
qed

theorem runWithoutSetHead_keeps_canonical_map_witness:
  "fst (runWithoutSetHead (scenarioEnv 4) (optsFor (blockN 11) (Some 210)) None True False
          (engineAt 10 10)) = Inr True
   \<and> numberToHash (chain stagedEngine) = numberToHash (chain (engineAt 10 10))
   \<and> getBlock (chain stagedEngine) (ByNumber 11) = Inl (Error ''not found in DB'')
   \<and> blocks (chain stagedEngine) 111 = Some (blockN 11)
   \<and> totalDifficulty (chain stagedEngine) 111 = Some 12"
proof -
  let ?w = "engineAt 10 10"
  let ?o = "optsFor (blockN 11) (Some 210)"
  have eq: "runWithoutSetHead (scenarioEnv 4) ?o None True False ?w = (Inr True, stagedEngine)"
    using staged_ok by (simp add: stagedEngine_def prod_eq_iff)
  have ident: "\<forall>n. numberToHash (chain ?w) n = Some (hash (block ?o))
                 \<longrightarrow> blocks (chain ?w) (hash (block ?o)) = Some (block ?o)"
    by (auto simp add: scenario_defs)
  have before: "getBlock (chain ?w) (ByNumber 11) = Inl (Error ''not found in DB'')"
    "getTd (chain ?w) (parentHash (block ?o)) (number (block ?o) - 1) = Inr 11"
    "hash (block ?o) = 111" "difficulty (block ?o) = 1" "block ?o = blockN 11"
    by (simp_all add: scenario_defs getTd_def getTotalDifficulty_def)
  from runWithoutSetHead_keeps_canonical_map[OF eq] obtain ptd where
    td: "getTd (chain ?w) (parentHash (block ?o)) (number (block ?o) - 1) = Inr ptd"
    and f1: "totalDifficulty (chain stagedEngine) (hash (block ?o)) = Some (ptd + difficulty (block ?o))"
    and f2: "blocks (chain stagedEngine) (hash (block ?o)) = Some (block ?o)"
    and f3: "numberToHash (chain stagedEngine) = numberToHash (chain ?w)"
    and f4: "(\<forall>n. numberToHash (chain ?w) n = Some (hash (block ?o))
                 \<longrightarrow> blocks (chain ?w) (hash (block ?o)) = Some (block ?o))
             \<longrightarrow> (\<forall>n. getBlock (chain stagedEngine) (ByNumber n) = getBlock (chain ?w) (ByNumber n))"
    by blast
  from td before(2) have ptd: "ptd = 11" by simp
  from f4 ident have "getBlock (chain stagedEngine) (ByNumber 11) = getBlock (chain ?w) (ByNumber 11)"
    by blast
  with before(1) have g: "getBlock (chain stagedEngine) (ByNumber 11) = Inl (Error ''not found in DB'')"
    by simp
  from f1 f2 ptd before(3,4,5) have
    "blocks (chain stagedEngine) 111 = Some (blockN 11)"
    "totalDifficulty (chain stagedEngine) 111 = Some 12"
    by simp_all
  with staged_ok f3 g show ?thesis by simp
qed

subsection \<open>run: the back step\<close>

lemma onIteratorError_backstep:
  assumes "errorBlock cb = Some eb"
      and "includes_s (toLowerCase (render err)) ''does not contain state root''"
      and "number eb > 1"
  shows "fst (onIteratorError err cb startHeadBlock w) = Num (number eb - number startHeadBlock)"
    and "headBlock cb = Some hb \<Longrightarrow> hasStateRoot (vm w) (stateRoot hb) \<Longrightarrow>
           heads (chain (snd (onIteratorError err cb startHeadBlock w)))
             = (heads (chain w))(''vm'' := parentHash hb)
         \<and> filter isHeadSet (events (snd (onIteratorError err cb startHeadBlock w)))
             = filter isHeadSet (events w) @ [IteratorHeadSet ''vm'' (parentHash hb)]"
    and "headBlock cb = None \<or> (\<exists>hb. headBlock cb = Some hb \<and> \<not> hasStateRoot (vm w) (stateRoot hb)) \<Longrightarrow>
           heads (chain (snd (onIteratorError err cb startHeadBlock w))) = heads (chain w)
         \<and> filter isHeadSet (events (snd (onIteratorError err cb startHeadBlock w)))
             = filter isHeadSet (events w)"
  using assms by (auto simp: onIteratorError_def Let_def)


text \<open>
  C3. A pass of the iterator has ended in an error thrown by the callback's \<^verbatim>\<open>try\<close>
  block for the block \<open>eb\<close>; the rendered error contains, in lower case, "does not
  contain state root", and \<open>eb\<close> is above number 1. If the callback's \<open>headBlock\<close> is
  defined and its state root is in the trie, the pass makes one \<open>setIteratorHead\<close> call,
  which puts the \<open>vm\<close> cursor on the parent hash of \<open>headBlock\<close>. If \<open>headBlock\<close> is
  undefined or its root is absent, there is no such call and the cursors stay where the
  iterator left them.
\<close>

theorem backstep_on_missing_state_root:
  assumes "iterator env ''vm'' (onBlock env) (numBlocksPerIteration env) None 0
             (cbStart cc, w) = (Inl err, cb, w1)"
      and "errorBlock cb = Some eb"
      and "includes_s (toLowerCase (render err)) ''does not contain state root''"
      and "number eb > 1"
  shows "(\<forall>hb. headBlock cb = Some hb \<and> hasStateRoot (vm w1) (stateRoot hb) \<longrightarrow>
            heads (chain (snd (snd (runPass env startHeadBlock cc w))))
              = (heads (chain w1))(''vm'' := parentHash hb)
          \<and> filter isHeadSet (events (snd (snd (runPass env startHeadBlock cc w))))
              = filter isHeadSet (events w1) @ [IteratorHeadSet ''vm'' (parentHash hb)])
       \<and> (headBlock cb = None \<or> (\<exists>hb. headBlock cb = Some hb \<and> \<not> hasStateRoot (vm w1) (stateRoot hb)) \<longrightarrow>
            heads (chain (snd (snd (runPass env startHeadBlock cc w)))) = heads (chain w1)
          \<and> filter isHeadSet (events (snd (snd (runPass env startHeadBlock cc w))))
              = filter isHeadSet (events w1))"
proof -
  have "snd (snd (runPass env startHeadBlock cc w)) = snd (onIteratorError err cb startHeadBlock w1)"
    using assms(1) by (simp add: runPass_def cbStart_def split: prod.splits)
  with onIteratorError_backstep(2,3)[OF assms(2,3,4)] show ?thesis
    by metis
qed

lemma faulty_iterator:
  "(case iterator ((scenarioEnv 4)\<lparr>runBlock := faultyVM 7\<rparr>) ''vm''
           (onBlock ((scenarioEnv 4)\<lparr>runBlock := faultyVM 7\<rparr>))
           (numBlocksPerIteration ((scenarioEnv 4)\<lparr>runBlock := faultyVM 7\<rparr>)) None 0
           (cbStart False, engineAt 10 5) of
      (r, cb, w) \<Rightarrow> (r, errorBlock cb, headBlock cb, hasStateRoot (vm w) 206,
                      heads (chain w) ''vm'', filter isHeadSet (events w)))
   = (Inl (Error ''State trie does not contain state root''), Some (blockN 7), Some (blockN 6),
      True, 106, [])"
  by (simp add: cbStart_def faultyVM_def engine_defs scenario_defs iterator_numeral Let_def)

lemma needle_found:
  "includes_s (toLowerCase (render (Error ''State trie does not contain state root'')))
     ''does not contain state root''"
  by (simp add: toLowerCase_def lowerChar_def)

theorem backstep_on_missing_state_root_witness:
  "includes_s (toLowerCase (render (Error ''State trie does not contain state root'')))
     ''does not contain state root''
   \<and> heads (chain (snd (snd (runPass ((scenarioEnv 4)\<lparr>runBlock := faultyVM 7\<rparr>) (blockN 5) False
                                  (engineAt 10 5))))) ''vm''
       = parentHash (blockN 6)
   \<and> filter isHeadSet
        (events (snd (snd (runPass ((scenarioEnv 4)\<lparr>runBlock := faultyVM 7\<rparr>) (blockN 5) False
                             (engineAt 10 5)))))
       = [IteratorHeadSet ''vm'' (parentHash (blockN 6))]"
proof -
  let ?env = "(scenarioEnv 4)\<lparr>runBlock := faultyVM 7\<rparr>"
  let ?err = "Error ''State trie does not contain state root''"
  let ?it = "iterator ?env ''vm'' (onBlock ?env) (numBlocksPerIteration ?env) None 0
               (cbStart False, engineAt 10 5)"
  let ?cb = "fst (snd ?it)"
  let ?w1 = "snd (snd ?it)"
  from faulty_iterator have
    it: "?it = (Inl ?err, ?cb, ?w1)"
    and eb: "errorBlock ?cb = Some (blockN 7)"
    and hb: "headBlock ?cb = Some (blockN 6)"
    and root: "hasStateRoot (vm ?w1) (stateRoot (blockN 6))"
    and none: "filter isHeadSet (events ?w1) = []"
    by (simp_all add: prod_eq_iff blockN_def split: prod.splits)
  have above: "number (blockN 7) > 1" by (simp add: blockN_def)
  from backstep_on_missing_state_root[OF it eb needle_found above, of "blockN 5"] hb root none
       needle_found
  show ?thesis by simp
qed


subsection \<open>run: the value returned after a failing block\<close>













subsection \<open>run: the hardfork switch\<close>

lemma onBlockTry_hardfork:
  assumes "getTotalDifficulty (chain w) (parentHash b) = Inr td"
  shows "hardfork (snd (snd (onBlockTry env b cb w))) = getHardforkBy env (number b) td (timestamp b)"
    and "\<exists>rest. events (snd (snd (onBlockTry env b cb w)))
           = events w
             @ (if getHardforkBy env (number b) td (timestamp b) \<noteq> hardfork w
                then [HardforkSwitch (number b) (hash b) (hardfork w)
                        (getHardforkBy env (number b) td (timestamp b))]
                else [])
             @ rest
         \<and> (\<forall>e \<in> set rest. \<not> isSwitch e)
         \<and> (\<forall>opts hf. RunBlockCalled opts hf \<in> set rest
               \<and> getHardforkBy env (number b) td (timestamp b) \<noteq> hardfork w
               \<longrightarrow> hf = getHardforkBy env (number b) td (timestamp b))"
proof -
  let ?hf = "getHardforkBy env (number b) td (timestamp b)"
  let ?sw = "if ?hf \<noteq> hardfork w then [HardforkSwitch (number b) (hash b) (hardfork w) ?hf] else []"
  define w1 where "w1 = (if ?hf \<noteq> hardfork w
                     then (let w' = emit (HardforkSwitch (number b) (hash b) (hardfork w) ?hf) w;
                               (hf', w'') = setHardforkBy env (number b) td (timestamp b) w'
                           in w''\<lparr>hardfork := hf'\<rparr>)
                     else w)"
  have w1: "hardfork w1 = ?hf" "events w1 = events w @ ?sw" "receiptsManager w1 = receiptsManager w"
       "?hf \<noteq> hardfork w \<Longrightarrow> commonHardfork w1 = ?hf"
    by (auto simp: w1_def setHardforkBy_def Let_def)
  let ?opts = "\<lparr>block = b, root = parentState cb, clearCache = Some (cbClearCache cb),
                skipBlockValidation = Some (consensusType env = ProofOfAuthority),
                skipHeaderValidation = Some True\<rparr>"
  obtain r w2 where call: "callRunBlock env ?opts w1 = (r, w2)" by (cases "callRunBlock env ?opts w1")
  note fr = callRunBlock_frame[OF call]
  have res: "snd (snd (onBlockTry env b cb w)) =
               (if \<not> started w1 then w1
                else case r of Inl e \<Rightarrow> w2 | Inr res \<Rightarrow> saveReceipts b (receipts res) w2)"
    using assms call by (simp add: onBlockTry_def Let_def w1_def split: sum.splits)
  show "hardfork (snd (snd (onBlockTry env b cb w))) = ?hf"
    using res w1(1) fr(3) by (simp add: saveReceipts_def split: sum.splits)
  show "\<exists>rest. events (snd (snd (onBlockTry env b cb w))) = events w @ ?sw @ rest
         \<and> (\<forall>e \<in> set rest. \<not> isSwitch e)
         \<and> (\<forall>opts hf. RunBlockCalled opts hf \<in> set rest \<and> ?hf \<noteq> hardfork w \<longrightarrow> hf = ?hf)"
  proof (cases "started w1")
    case False
    with res w1(2) show ?thesis by (intro exI[of _ "[]"]) simp
  next
    case True
    show ?thesis
    proof (cases r)
      case (Inl e)
      with True res w1 fr(2) show ?thesis
        by (intro exI[of _ "[RunBlockCalled ?opts (commonHardfork w1)]"]) auto
    next
      case (Inr rr)
      with True res w1 fr(2,4) show ?thesis
        by (intro exI[of _ "[RunBlockCalled ?opts (commonHardfork w1)]
                            @ (if receiptsManager w then [SavedReceipts b (receipts rr)] else [])"])
           (auto simp: saveReceipts_events)
    qed
  qed
qed

lemma onBlock_world:
  assumes "headBlock cb = None \<or> reorg \<longrightarrow> (\<exists>hb. getBlock (chain w) (ByHash (parentHash b)) = Inr hb)"
  shows "\<exists>cb1. snd (snd (onBlock env b reorg (cb, w))) = snd (snd (onBlockTry env b cb1 w))"
proof (cases "headBlock cb = None \<or> reorg")
  case True
  with assms obtain hb where hb: "getBlock (chain w) (ByHash (parentHash b)) = Inr hb" by blast
  let ?cb1 = "cb\<lparr>headBlock := Some hb, parentState := Some (stateRoot hb),
                 cbClearCache := (if reorg then True else getStateRoot (vm w) \<noteq> stateRoot hb)\<rparr>"
  obtain r cb2 w2 where t: "onBlockTry env b ?cb1 w = (r, cb2, w2)"
    by (cases "onBlockTry env b ?cb1 w")
  have "snd (snd (onBlock env b reorg (cb, w))) = snd (snd (onBlockTry env b ?cb1 w))"
    using True hb t by (cases r) (simp_all add: onBlock_def)
  then show ?thesis by blast
next
  case False
  let ?cb1 = "cb\<lparr>cbClearCache := False\<rparr>"
  obtain r cb2 w2 where t: "onBlockTry env b ?cb1 w = (r, cb2, w2)"
    by (cases "onBlockTry env b ?cb1 w")
  have "snd (snd (onBlock env b reorg (cb, w))) = snd (snd (onBlockTry env b ?cb1 w))"
    using False t by (cases r) (auto simp add: onBlock_def)
  then show ?thesis by blast
qed

lemma linear_sync_observed:
  "observed (run (scenarioEnv 4) True False (engineAt 10 0))
     = Some (Inr 2, 110, 10, ''london'', [HardforkSwitch 5 105 ''berlin'' ''london''])"
  by (simp add: observed_def engine_defs scenario_defs runLoop.simps iterator_numeral Let_def)


text \<open>
  C8. For a block delivered to the callback whose parent state is chosen and whose
  parent has a total difficulty \<open>td\<close>, the engine's hardfork after the callback is the
  tag of the table at (number, \<open>td\<close>, timestamp), whatever the block run does. When the
  tag differs from the engine's, the switch message is the first thing the callback
  emits: every call of \<open>runBlock\<close> comes after it and runs under the new tag; when
  it does not differ there is no switch message. In the scenario (table changing at
  block 5, blocks 1 to 10 run with \<open>loop = true\<close>) the engine ends on the new tag and the
  log holds one switch message, for block 5.
\<close>

theorem hardfork_switch_precedes_runBlock:
  "((headBlock cb = None \<or> reorg \<longrightarrow> (\<exists>hb. getBlock (chain w) (ByHash (parentHash b)) = Inr hb))
      \<and> getTotalDifficulty (chain w) (parentHash b) = Inr td
    \<longrightarrow> hardfork (snd (snd (onBlock env b reorg (cb, w))))
          = getHardforkBy env (number b) td (timestamp b)
        \<and> (\<exists>rest. events (snd (snd (onBlock env b reorg (cb, w))))
              = events w
                @ (if getHardforkBy env (number b) td (timestamp b) \<noteq> hardfork w
                   then [HardforkSwitch (number b) (hash b) (hardfork w)
                           (getHardforkBy env (number b) td (timestamp b))]
                   else [])
                @ rest
            \<and> (\<forall>e \<in> set rest. \<not> isSwitch e)
            \<and> (\<forall>opts hf. RunBlockCalled opts hf \<in> set rest
                  \<and> getHardforkBy env (number b) td (timestamp b) \<noteq> hardfork w
                  \<longrightarrow> hf = getHardforkBy env (number b) td (timestamp b))))
   \<and> map_option (\<lambda>(x, cursor, n, hf, switches). (hf, switches))
       (observed (run (scenarioEnv 4) True False (engineAt 10 0)))
     = Some (''london'', [HardforkSwitch 5 (hash (blockN 5)) ''berlin'' ''london''])"
proof (intro conjI impI)
  assume a: "(headBlock cb = None \<or> reorg \<longrightarrow> (\<exists>hb. getBlock (chain w) (ByHash (parentHash b)) = Inr hb))
      \<and> getTotalDifficulty (chain w) (parentHash b) = Inr td"
  then obtain cb1 where w': "snd (snd (onBlock env b reorg (cb, w))) = snd (snd (onBlockTry env b cb1 w))"
    using onBlock_world by blast
  from a have td: "getTotalDifficulty (chain w) (parentHash b) = Inr td" by simp
  show "hardfork (snd (snd (onBlock env b reorg (cb, w)))) = getHardforkBy env (number b) td (timestamp b)"
    unfolding w' by (rule onBlockTry_hardfork(1)[OF td])
  show "\<exists>rest. events (snd (snd (onBlock env b reorg (cb, w))))
              = events w
                @ (if getHardforkBy env (number b) td (timestamp b) \<noteq> hardfork w
                   then [HardforkSwitch (number b) (hash b) (hardfork w)
                           (getHardforkBy env (number b) td (timestamp b))]
                   else [])
                @ rest
            \<and> (\<forall>e \<in> set rest. \<not> isSwitch e)
            \<and> (\<forall>opts hf. RunBlockCalled opts hf \<in> set rest
                  \<and> getHardforkBy env (number b) td (timestamp b) \<noteq> hardfork w
                  \<longrightarrow> hf = getHardforkBy env (number b) td (timestamp b))"
    unfolding w' by (rule onBlockTry_hardfork(2)[OF td])
next
  show "map_option (\<lambda>(x, cursor, n, hf, switches). (hf, switches))
       (observed (run (scenarioEnv 4) True False (engineAt 10 0)))
     = Some (''london'', [HardforkSwitch 5 (hash (blockN 5)) ''berlin'' ''london''])"
    by (simp add: linear_sync_observed blockN_def)
qed

theorem hardfork_switch_precedes_runBlock_witness:
  "hardfork (engineAt 10 4) = ''berlin''
   \<and> getTotalDifficulty (chain (engineAt 10 4)) (parentHash (blockN 5)) = Inr 5
   \<and> hardfork (snd (snd (onBlock (scenarioEnv 4) (blockN 5) False (cbStart False, engineAt 10 4))))
       = ''london''"
proof -
  have parent: "getBlock (chain (engineAt 10 4)) (ByHash (parentHash (blockN 5))) = Inr (blockN 4)"
    and td: "getTotalDifficulty (chain (engineAt 10 4)) (parentHash (blockN 5)) = Inr 5"
    and old: "hardfork (engineAt 10 4) = ''berlin''"
    and new: "getHardforkBy (scenarioEnv 4) (number (blockN 5)) 5 (timestamp (blockN 5)) = ''london''"
    by (simp_all add: engine_defs scenario_defs)
  from hardfork_switch_precedes_runBlock
         [THEN conjunct1, rule_format,
          of "cbStart False" False "engineAt 10 4" "blockN 5" 5 "scenarioEnv 4"]
       parent td old new
  show ?thesis by simp
qed


subsection \<open>run: the number of blocks executed\<close>

text \<open>The batched scenario: with \<open>numBlocksPerIteration = 4\<close> three calls of
  \<open>run\<close> with \<open>loop = false\<close> return 4, 4 and 2 and leave the cursor on blocks 4, 8
  and 10.\<close>

lemma batched_runs_return_4_4_2:
  "map observed
     [run (scenarioEnv 4) False False (engineAt 10 0),
      run (scenarioEnv 4) False False
        (worldAfter (engineAt 10 0) (run (scenarioEnv 4) False False (engineAt 10 0))),
      run (scenarioEnv 4) False False
        (worldAfter (engineAt 10 0)
           (run (scenarioEnv 4) False False
              (worldAfter (engineAt 10 0) (run (scenarioEnv 4) False False (engineAt 10 0)))))]
   = [Some (Inr 4, 104, 4, ''berlin'', []),
      Some (Inr 4, 108, 8, ''london'', [HardforkSwitch 5 105 ''berlin'' ''london'']),
      Some (Inr 2, 110, 10, ''london'', [HardforkSwitch 5 105 ''berlin'' ''london''])]"
  by (simp add: observed_def worldAfter_def engine_defs scenario_defs runLoop.simps iterator_numeral
        Let_def)


text \<open>
  C7. On the same store one call with \<open>loop = true\<close> runs the ten blocks 1 to 10 in
  three passes and leaves the cursor on block 10, but returns 2, the count of its last
  pass: \<open>numExecuted\<close> is overwritten by each pass, not added up.
\<close>

theorem run_returns_count_of_last_pass:
  "map_option (\<lambda>(x, cursor, n, hf, switches). (x, cursor, n))
     (observed (run (scenarioEnv 4) True False (engineAt 10 0)))
   = Some (Inr 2, hash (blockN 10), 10)"
  by (simp add: linear_sync_observed blockN_def)

theorem run_returns_count_of_last_pass_witness:
  "map_option (\<lambda>(x, cursor, n, hf, switches). x)
     (observed (run (scenarioEnv 4) True False (engineAt 10 0)))
   \<noteq> Some (Inr 10)"
  using run_returns_count_of_last_pass by (auto simp: map_option_case split: option.splits)


subsection \<open>setHead: the canonicality check\<close>

lemma setHead_side:
  "fst (setHead (scenarioEnv 4) [blockN 11] None (Some sideBlock) stagedEngine) = Inr True"
  "heads (chain (snd (setHead (scenarioEnv 4) [blockN 11] None (Some sideBlock) stagedEngine))) ''safe'' = 999"
  "map_sum id hash (getBlock (chain (snd (setHead (scenarioEnv 4) [blockN 11] None (Some sideBlock) stagedEngine))) (ByNumber 10)) = Inr 110"
  by (simp_all add: stagedEngine_def sideBlock_def engine_defs scenario_defs Let_def)




text \<open>
  C1. \<open>setHead\<close> is called with block 11 as the new head and, as safe block, a block of
  number 10 that is not the canonical block 10. The check runs over the new head only, so
  the call succeeds and puts the \<open>safe\<close> cursor on the block that is not canonical.
\<close>

theorem setHead_accepts_noncanonical_safe:
  "fst (setHead (scenarioEnv 4) [blockN 11] None (Some sideBlock) stagedEngine) = Inr True
   \<and> heads (chain (snd (setHead (scenarioEnv 4) [blockN 11] None (Some sideBlock) stagedEngine)))
       ''safe'' = hash sideBlock
   \<and> map_sum id hash
       (getBlock (chain (snd (setHead (scenarioEnv 4) [blockN 11] None (Some sideBlock) stagedEngine)))
          (ByNumber (number sideBlock)))
     = Inr (hash (blockN 10))
   \<and> hash sideBlock \<noteq> hash (blockN 10)"
  using setHead_side by (simp add: sideBlock_def blockN_def)

theorem setHead_accepts_noncanonical_safe_witness:
  "fst (setHead (scenarioEnv 4) [blockN 11] None (Some sideBlock) stagedEngine)
     \<noteq> Inl (Error ''safeBlock not in canonical chain'')"
  using setHead_accepts_noncanonical_safe by simp

subsection \<open>The execution lock: mutual exclusion\<close>










end
